theory Spec2Isabelle
  imports Main "HOL-Library.Sublist"
begin

section \<open>Text and character classes\<close>

text \<open>
  A Python \<open>str\<close> is modelled as a HOL \<open>string\<close>: a list of 8-bit characters, read as
  the code points U+0000 .. U+00FF. The character classes below are the ones Python's
  \<open>re\<close> module and \<open>str.strip\<close> use for \<open>str\<close> arguments, restricted to that range.
\<close>

definition code :: "char \<Rightarrow> nat" where
  "code c = of_char c"

definition is_digit :: "char \<Rightarrow> bool" where
  \<comment> \<open>\<open>\d\<close> and \<open>[0-9]\<close>\<close>
  "is_digit c = (48 \<le> code c \<and> code c \<le> 57)"

definition is_upper :: "char \<Rightarrow> bool" where
  "is_upper c = (65 \<le> code c \<and> code c \<le> 90)"

definition is_lower :: "char \<Rightarrow> bool" where
  "is_lower c = (97 \<le> code c \<and> code c \<le> 122)"

definition is_letter :: "char \<Rightarrow> bool" where
  \<comment> \<open>\<open>[A-Z]\<close> under \<open>re.IGNORECASE\<close>\<close>
  "is_letter c = (is_upper c \<or> is_lower c)"

definition is_latin1_alnum :: "char \<Rightarrow> bool" where
  \<comment> \<open>the characters of U+0080 .. U+00FF for which \<open>str.isalnum\<close> holds\<close>
  "is_latin1_alnum c =
     (code c = 170 \<or> code c = 178 \<or> code c = 179 \<or> code c = 181 \<or> code c = 185 \<or>
      code c = 186 \<or> (188 \<le> code c \<and> code c \<le> 190) \<or>
      (192 \<le> code c \<and> code c \<le> 214) \<or> (216 \<le> code c \<and> code c \<le> 246) \<or>
      248 \<le> code c)"

definition is_word :: "char \<Rightarrow> bool" where
  \<comment> \<open>\<open>\w\<close>: alphanumeric or underscore\<close>
  "is_word c = (is_digit c \<or> is_letter c \<or> code c = 95 \<or> is_latin1_alnum c)"

definition is_space :: "char \<Rightarrow> bool" where
  \<comment> \<open>\<open>\s\<close> and the characters \<open>str.strip()\<close> removes\<close>
  "is_space c =
     ((9 \<le> code c \<and> code c \<le> 13) \<or> (28 \<le> code c \<and> code c \<le> 32) \<or>
      code c = 133 \<or> code c = 160)"

definition lower_char :: "char \<Rightarrow> char" where
  "lower_char c =
     (if is_upper c \<or> (192 \<le> code c \<and> code c \<le> 222 \<and> code c \<noteq> 215)
      then char_of (code c + 32) else c)"


definition lower :: "string \<Rightarrow> string" where
  "lower s = map lower_char s"


definition replace_char :: "char \<Rightarrow> char \<Rightarrow> string \<Rightarrow> string" where
  \<comment> \<open>\<open>s.replace(a, b)\<close> for one-character \<open>a\<close> and \<open>b\<close>\<close>
  "replace_char a b s = map (\<lambda>c. if c = a then b else c) s"

definition startswith :: "string \<Rightarrow> string \<Rightarrow> bool" where
  "startswith s p = (take (length p) s = p)"

definition strip :: "string \<Rightarrow> string" where
  "strip s = rev (dropWhile is_space (rev (dropWhile is_space s)))"

fun first_some :: "'a option list \<Rightarrow> 'a option" where
  "first_some [] = None"
| "first_some (None # xs) = first_some xs"
| "first_some (Some x # xs) = Some x"


section \<open>The regular expressions of the identifier extractors\<close>

text \<open>
  The patterns of the two extractors are sequences of word boundaries, one capturing
  group and greedy repetitions of a character class. \<open>re_match\<close> is the backtracking
  matcher of \<open>re\<close> on that fragment: a repetition first takes as many characters as it
  can (up to its maximum) and gives them back one at a time, down to its minimum.
  It returns the text of group 1. \<open>re_search\<close> tries every start position from left
  to right, as \<open>re.search\<close> does. All patterns are compiled with \<open>re.IGNORECASE\<close>.
\<close>

datatype cls =
    AZ            \<comment> \<open>\<open>[A-Z]\<close>\<close>
  | Dig           \<comment> \<open>\<open>\d\<close>\<close>
  | AZ09          \<comment> \<open>\<open>[A-Z0-9]\<close>\<close>
  | AZ09H         \<comment> \<open>\<open>[A-Z0-9-]\<close>\<close>
  | Spc           \<comment> \<open>\<open>\s\<close>\<close>
  | Ch char       \<comment> \<open>a literal character, in lower case when it is a letter\<close>

fun in_cls :: "cls \<Rightarrow> char \<Rightarrow> bool" where
  "in_cls AZ c = is_letter c"
| "in_cls Dig c = is_digit c"
| "in_cls AZ09 c = (is_letter c \<or> is_digit c)"
| "in_cls AZ09H c = (is_letter c \<or> is_digit c \<or> code c = 45)"
| "in_cls Spc c = is_space c"
| "in_cls (Ch l) c = (c = l \<or> (is_upper c \<and> lower_char c = l))"

datatype atom =
    Bound                          \<comment> \<open>\<open>\b\<close>\<close>
  | GOpen                          \<comment> \<open>\<open>(\<close>\<close>
  | GClose                         \<comment> \<open>\<open>)\<close>\<close>
  | Rep cls nat "nat option"       \<comment> \<open>\<open>C{lo,hi}\<close>, \<open>C{lo,}\<close> when there is no maximum\<close>

type_synonym pattern = "atom list"

definition at_boundary :: "char option \<Rightarrow> string \<Rightarrow> bool" where
  "at_boundary prev s =
     ((case prev of None \<Rightarrow> False | Some c \<Rightarrow> is_word c)
        \<noteq> (case s of [] \<Rightarrow> False | c # _ \<Rightarrow> is_word c))"

definition run_length :: "cls \<Rightarrow> nat option \<Rightarrow> string \<Rightarrow> nat" where
  "run_length cl hi s =
     (let k = length (takeWhile (in_cls cl) s)
      in case hi of None \<Rightarrow> k | Some h \<Rightarrow> min h k)"

definition prev_after :: "char option \<Rightarrow> string \<Rightarrow> char option" where
  "prev_after prev consumed = (if consumed = [] then prev else Some (last consumed))"

fun re_match :: "pattern \<Rightarrow> char option \<Rightarrow> string \<Rightarrow> bool \<times> string \<Rightarrow> string option" where
  "re_match [] prev s (ing, cap) = Some cap"
| "re_match (Bound # as) prev s st =
     (if at_boundary prev s then re_match as prev s st else None)"
| "re_match (GOpen # as) prev s (ing, cap) = re_match as prev s (True, cap)"
| "re_match (GClose # as) prev s (ing, cap) = re_match as prev s (False, cap)"
| "re_match (Rep cl lo hi # as) prev s (ing, cap) =
     first_some
       (map (\<lambda>n. re_match as (prev_after prev (take n s)) (drop n s)
                    (ing, if ing then cap @ take n s else cap))
            (rev [lo ..< Suc (run_length cl hi s)]))"

fun re_search_from :: "pattern \<Rightarrow> char option \<Rightarrow> string \<Rightarrow> string option" where
  "re_search_from pat prev [] = re_match pat prev [] (False, [])"
| "re_search_from pat prev (c # cs) =
     (case re_match pat prev (c # cs) (False, []) of
        Some g \<Rightarrow> Some g
      | None \<Rightarrow> re_search_from pat (Some c) cs)"

definition re_search :: "pattern \<Rightarrow> string \<Rightarrow> string option" where
  \<comment> \<open>\<open>re.search(pattern, text, re.IGNORECASE)\<close>, giving \<open>match.group(1)\<close>\<close>
  "re_search pat text = re_search_from pat None text"

definition literal :: "string \<Rightarrow> pattern" where
  "literal s = map (\<lambda>c. Rep (Ch c) 1 (Some 1)) s"

definition pat_letters_digits :: pattern where
  \<comment> \<open>\<open>\b([A-Z]{2,4}\d{6,})\b\<close>\<close>
  "pat_letters_digits = [Bound, GOpen, Rep AZ 2 (Some 4), Rep Dig 6 None, GClose, Bound]"

definition pat_hyphen :: pattern where
  \<comment> \<open>\<open>\b([A-Z]+-\d+)\b\<close>\<close>
  "pat_hyphen =
     [Bound, GOpen, Rep AZ 1 None, Rep (Ch (CHR ''-'')) 1 (Some 1), Rep Dig 1 None,
      GClose, Bound]"

definition pat_factura :: pattern where
  \<comment> \<open>\<open>\bfactura\s+([A-Z0-9-]+)\<close>\<close>
  "pat_factura =
     Bound # literal ''factura'' @ [Rep Spc 1 None, GOpen, Rep AZ09H 1 None, GClose]"

definition pat_two_nine :: pattern where
  \<comment> \<open>\<open>\b([A-Z]{2}\d{9})\b\<close>\<close>
  "pat_two_nine = [Bound, GOpen, Rep AZ 2 (Some 2), Rep Dig 9 (Some 9), GClose, Bound]"

definition pat_cufe :: pattern where
  \<comment> \<open>\<open>\b([A-Z0-9]{32})\b\<close>\<close>
  "pat_cufe = [Bound, GOpen, Rep AZ09 32 (Some 32), GClose, Bound]"

fun first_match :: "pattern list \<Rightarrow> string \<Rightarrow> string option" where
  \<comment> \<open>\<open>for pattern in invoice_patterns: ... if match: return match.group(1)\<close>\<close>
  "first_match [] text = None"
| "first_match (p # ps) text =
     (case re_search p text of Some g \<Rightarrow> Some g | None \<Rightarrow> first_match ps text)"


section \<open>The identifier extractors\<close>

definition flow_invoice_patterns :: "pattern list" where
  "flow_invoice_patterns = [pat_letters_digits, pat_hyphen, pat_factura]"

definition extract_invoice_identifier_from_text :: "string \<Rightarrow> string option" where
  \<comment> \<open>\<open>_extract_invoice_identifier_from_text\<close> of flows/custom_agent.py\<close>
  "extract_invoice_identifier_from_text text =
     (case first_match flow_invoice_patterns text of
        Some g \<Rightarrow> Some g
      | None \<Rightarrow> re_search pat_cufe text)"

definition service_invoice_patterns :: "pattern list" where
  "service_invoice_patterns = [pat_letters_digits, pat_hyphen, pat_factura, pat_two_nine]"

definition extract_invoice_identifier :: "string \<Rightarrow> string option" where
  \<comment> \<open>\<open>CustomAgentService._extract_invoice_identifier\<close> of services/custom_agent_service.py\<close>
  "extract_invoice_identifier question =
     (case first_match service_invoice_patterns question of
        Some g \<Rightarrow> Some g
      | None \<Rightarrow> re_search pat_cufe question)"


section \<open>Session keys\<close>

definition generate_thread_id :: "(string \<Rightarrow> string) \<Rightarrow> string \<Rightarrow> string" where
  \<comment> \<open>\<open>CustomAgentService._generate_thread_id\<close>; the first argument stands for
      \<open>lambda q: hashlib.md5(q.encode()).hexdigest()\<close>\<close>
  "generate_thread_id md5_hexdigest question =
     (case extract_invoice_identifier question of
        Some invoice_id \<Rightarrow>
          if invoice_id \<noteq> []
          then ''invoice_'' @ replace_char (CHR ''-'') (CHR ''_'') (lower invoice_id)
          else ''query_'' @ take 8 (md5_hexdigest question)
      | None \<Rightarrow> ''query_'' @ take 8 (md5_hexdigest question))"


section \<open>Calendar dates\<close>

text \<open>
  A \<open>datetime.date\<close> is modelled by its proleptic Gregorian ordinal, the number
  \<open>date.toordinal()\<close> returns (1 is 0001-01-01, 3652059 is 9999-12-31). \<open>date + timedelta\<close>
  and \<open>date - date\<close> are arithmetic on ordinals, with the range checks of \<open>datetime\<close>.
\<close>

type_synonym date = int

datatype exc = ValueError string | OverflowError string | TypeError string | IndexError string

fun str_exc :: "exc \<Rightarrow> string" where
  "str_exc (ValueError m) = m"
| "str_exc (OverflowError m) = m"
| "str_exc (TypeError m) = m"
| "str_exc (IndexError m) = m"

definition is_leap :: "nat \<Rightarrow> bool" where
  "is_leap y = (y mod 4 = 0 \<and> (y mod 100 \<noteq> 0 \<or> y mod 400 = 0))"

definition days_in_month :: "nat \<Rightarrow> nat \<Rightarrow> nat" where
  "days_in_month y m =
     (if m = 2 then (if is_leap y then 29 else 28)
      else if m = 4 \<or> m = 6 \<or> m = 9 \<or> m = 11 then 30 else 31)"

definition days_before_year :: "nat \<Rightarrow> nat" where
  "days_before_year y = (let p = y - 1 in p * 365 + p div 4 - p div 100 + p div 400)"

definition days_before_month :: "nat \<Rightarrow> nat \<Rightarrow> nat" where
  "days_before_month y m =
     [0, 31, 59, 90, 120, 151, 181, 212, 243, 273, 304, 334] ! (m - 1)
       + (if 2 < m \<and> is_leap y then 1 else 0)"

definition ymd2ord :: "nat \<Rightarrow> nat \<Rightarrow> nat \<Rightarrow> date" where
  "ymd2ord y m d = int (days_before_year y + days_before_month y m + d)"

definition max_ordinal :: int where
  "max_ordinal = 3652059"

definition mk_date :: "nat \<Rightarrow> nat \<Rightarrow> nat \<Rightarrow> date option" where
  \<comment> \<open>\<open>date(year, month, day)\<close>; \<open>None\<close> where the constructor raises ValueError\<close>
  "mk_date y m d =
     (if 1 \<le> y \<and> y \<le> 9999 \<and> 1 \<le> m \<and> m \<le> 12 \<and> 1 \<le> d \<and> d \<le> days_in_month y m
      then Some (ymd2ord y m d) else None)"

fun str_nat :: "nat \<Rightarrow> string" where
  "str_nat n = (if n < 10 then [char_of (48 + n)] else str_nat (n div 10) @ [char_of (48 + n mod 10)])"

definition str_int :: "int \<Rightarrow> string" where
  "str_int i = (if i < 0 then CHR ''-'' # str_nat (nat (- i)) else str_nat (nat i))"

definition timedelta_days :: "int \<Rightarrow> exc + int" where
  \<comment> \<open>\<open>timedelta(days=n)\<close>, with the texts CPython gives its OverflowError\<close>
  "timedelta_days n =
     (if \<bar>n\<bar> \<le> 999999999 then Inr n
      else if - 2147483648 \<le> n \<and> n \<le> 2147483647
      then Inl (OverflowError (''days='' @ str_int n @ ''; must have magnitude <= 999999999''))
      else Inl (OverflowError ''Python int too large to convert to C int''))"

definition date_add :: "date \<Rightarrow> int \<Rightarrow> exc + date" where
  \<comment> \<open>\<open>date + timedelta(days=n)\<close>\<close>
  "date_add d n =
     (if 1 \<le> d + n \<and> d + n \<le> max_ordinal then Inr (d + n)
      else Inl (OverflowError ''date value out of range''))"

definition date_diff_days :: "date \<Rightarrow> date \<Rightarrow> int" where
  \<comment> \<open>\<open>(a - b).days\<close>\<close>
  "date_diff_days a b = a - b"


section \<open>Parsing the issue date\<close>

text \<open>
  \<open>datetime.strptime\<close> turns a format into a regular expression (\<open>%Y\<close> is four digits,
  \<open>%m\<close> is \<open>1[0-2]|0[1-9]|[1-9]\<close>, \<open>%d\<close> is \<open>3[0-1]|[1-2]\d|0[1-9]|[1-9]| [1-9]\<close>), matches
  it against the start of the text with backtracking, raises ValueError when there is
  no match or when text remains after the match, and then builds the date, which
  raises ValueError for a day that does not exist. \<open>None\<close> stands for ValueError.
\<close>

datatype directive = DY | Dm | Dd | DLit char

definition char_in :: "nat \<Rightarrow> nat \<Rightarrow> char \<Rightarrow> bool" where
  "char_in lo hi c = (lo \<le> code c \<and> code c \<le> hi)"

fun seq_match :: "(char \<Rightarrow> bool) list \<Rightarrow> string \<Rightarrow> (string \<times> string) option" where
  \<comment> \<open>one character per predicate: the text consumed and the text that remains\<close>
  "seq_match [] s = Some ([], s)"
| "seq_match (p # ps) [] = None"
| "seq_match (p # ps) (c # cs) =
     (if p c then (case seq_match ps cs of
                     None \<Rightarrow> None
                   | Some (used, rest) \<Rightarrow> Some (c # used, rest))
      else None)"

fun options :: "'a option list \<Rightarrow> 'a list" where
  "options [] = []"
| "options (None # xs) = options xs"
| "options (Some x # xs) = x # options xs"

fun alternatives :: "directive \<Rightarrow> string \<Rightarrow> (string \<times> string) list" where
  "alternatives DY s = options [seq_match [is_digit, is_digit, is_digit, is_digit] s]"
| "alternatives Dm s =
     options [seq_match [char_in 49 49, char_in 48 50] s,
              seq_match [char_in 48 48, char_in 49 57] s,
              seq_match [char_in 49 57] s]"
| "alternatives Dd s =
     options [seq_match [char_in 51 51, char_in 48 49] s,
              seq_match [char_in 49 50, is_digit] s,
              seq_match [char_in 48 48, char_in 49 57] s,
              seq_match [char_in 49 57] s,
              seq_match [char_in 32 32, char_in 49 57] s]"
| "alternatives (DLit l) s = options [seq_match [\<lambda>c. lower_char c = lower_char l] s]"

definition int_of_text :: "string \<Rightarrow> nat" where
  \<comment> \<open>\<open>int(s)\<close> for a text of digits after an optional space\<close>
  "int_of_text s = foldl (\<lambda>a c. 10 * a + (code c - 48)) 0 (filter is_digit s)"

fun store :: "directive \<Rightarrow> nat \<Rightarrow> nat \<times> nat \<times> nat \<Rightarrow> nat \<times> nat \<times> nat" where
  "store DY v (y, m, d) = (v, m, d)"
| "store Dm v (y, m, d) = (y, v, d)"
| "store Dd v (y, m, d) = (y, m, v)"
| "store (DLit l) v (y, m, d) = (y, m, d)"

fun strp_match ::
  "directive list \<Rightarrow> string \<Rightarrow> nat \<times> nat \<times> nat \<Rightarrow> ((nat \<times> nat \<times> nat) \<times> string) option" where
  "strp_match [] s f = Some (f, s)"
| "strp_match (d # ds) s f =
     first_some
       (map (\<lambda>(used, rest). strp_match ds rest (store d (int_of_text used) f))
            (alternatives d s))"

definition strptime_ymd :: "string \<Rightarrow> directive list \<Rightarrow> (nat \<times> nat \<times> nat) option" where
  \<comment> \<open>year, month and day read from the text, before the date is built\<close>
  "strptime_ymd s fmt =
     (case strp_match fmt s (1900, 1, 1) of
        None \<Rightarrow> None
      | Some (f, rest) \<Rightarrow> if rest = [] then Some f else None)"

definition strptime_date :: "string \<Rightarrow> directive list \<Rightarrow> date option" where
  \<comment> \<open>\<open>datetime.strptime(s, fmt).date()\<close>\<close>
  "strptime_date s fmt =
     (case strptime_ymd s fmt of
        None \<Rightarrow> None
      | Some (y, m, d) \<Rightarrow> mk_date y m d)"

definition fmt_Y_m_d :: "directive list" where
  \<comment> \<open>\<open>%Y-%m-%d\<close>\<close>
  "fmt_Y_m_d = [DY, DLit (CHR ''-''), Dm, DLit (CHR ''-''), Dd]"

definition fmt_d_m_Y :: "directive list" where
  \<comment> \<open>\<open>%d-%m-%Y\<close>\<close>
  "fmt_d_m_Y = [Dd, DLit (CHR ''-''), Dm, DLit (CHR ''-''), DY]"

definition fmt_d_m_Y_slash :: "directive list" where
  \<comment> \<open>\<open>%d/%m/%Y\<close>\<close>
  "fmt_d_m_Y_slash = [Dd, DLit (CHR ''/''), Dm, DLit (CHR ''/''), DY]"

definition fmt_Y_m_d_slash :: "directive list" where
  \<comment> \<open>\<open>%Y/%m/%d\<close>\<close>
  "fmt_Y_m_d_slash = [DY, DLit (CHR ''/''), Dm, DLit (CHR ''/''), Dd]"

definition formatos_fecha :: "directive list list" where
  "formatos_fecha = [fmt_Y_m_d, fmt_d_m_Y, fmt_d_m_Y_slash, fmt_Y_m_d_slash]"

fun parse_fecha :: "directive list list \<Rightarrow> string \<Rightarrow> date option" where
  \<comment> \<open>the loop over \<open>formatos_fecha\<close>: \<open>break\<close> at the first format that parses,
      \<open>continue\<close> on ValueError\<close>
  "parse_fecha [] fecha_emision = None"
| "parse_fecha (formato # formatos) fecha_emision =
     (case strptime_date (strip fecha_emision) formato of
        Some dt \<Rightarrow> Some dt
      | None \<Rightarrow> parse_fecha formatos fecha_emision)"


section \<open>The due date of an invoice\<close>

text \<open>
  \<open>calcular_vencimiento\<close> returns \<open>json.dumps\<close> of a dictionary; the model returns the
  dictionary. \<open>JDate d\<close> stands for the string \<open>d.strftime("%Y-%m-%d")\<close>. The current
  date \<open>datetime.now().date()\<close> is the argument \<open>hoy\<close>. The argument \<open>dias_credito\<close> is
  given by what \<open>int(dias_credito)\<close> does with it: \<open>Inr n\<close> when it returns \<open>n\<close>, \<open>Inl e\<close>
  when it raises \<open>e\<close>.
\<close>

datatype json = JNull | JBool bool | JInt int | JStr string | JDate date

record vencimiento =
  fecha_emision :: json
  fecha_vencimiento :: json
  vencida :: json
  dias_restantes :: json
  mensaje :: json
  error :: json

definition parse_error_text :: "string \<Rightarrow> string" where
  "parse_error_text fecha =
     ''No se pudo parsear la fecha '' @ [CHR 0x27] @ fecha @ [CHR 0x27] @
     ''. Use formato YYYY-MM-DD (ej: 2025-10-03)''"

definition mensaje_vencida :: "int \<Rightarrow> string" where
  "mensaje_vencida dias =
     ''La factura venci'' @ [CHR 0xF3] @ '' hace '' @ str_int (- dias) @
     '' d'' @ [CHR 0xED] @ ''as.''"

definition mensaje_faltan :: "int \<Rightarrow> string" where
  "mensaje_faltan dias =
     ''Faltan '' @ str_int dias @ '' d'' @ [CHR 0xED] @ ''as para el vencimiento.''"

definition error_result :: "string \<Rightarrow> exc \<Rightarrow> vencimiento" where
  "error_result fecha e =
     \<lparr> fecha_emision = JStr fecha,
       fecha_vencimiento = JNull,
       vencida = JNull,
       dias_restantes = JNull,
       mensaje = JStr (''Hubo un error al intentar calcular la fecha de vencimiento: '' @ str_exc e),
       error = JStr (str_exc e) \<rparr>"

definition compute_vencimiento :: "date \<Rightarrow> string \<Rightarrow> exc + int \<Rightarrow> exc + vencimiento" where
  \<comment> \<open>the body of the \<open>try\<close> block\<close>
  "compute_vencimiento hoy fecha dias_credito =
     (case parse_fecha formatos_fecha fecha of
        None \<Rightarrow> Inl (ValueError (parse_error_text fecha))
      | Some fecha_emision_dt \<Rightarrow>
         (case dias_credito of
            Inl e \<Rightarrow> Inl e
          | Inr dias \<Rightarrow>
             (case timedelta_days dias of
                Inl e \<Rightarrow> Inl e
              | Inr delta \<Rightarrow>
                 (case date_add fecha_emision_dt delta of
                    Inl e \<Rightarrow> Inl e
                  | Inr vence \<Rightarrow>
                      let restantes = date_diff_days vence hoy;
                          es_vencida = (restantes < 0)
                      in Inr \<lparr> fecha_emision = JDate fecha_emision_dt,
                               fecha_vencimiento = JDate vence,
                               vencida = JBool es_vencida,
                               dias_restantes = JInt restantes,
                               mensaje = JStr (if es_vencida then mensaje_vencida restantes
                                               else mensaje_faltan restantes),
                               error = JNull \<rparr>))))"

definition calcular_vencimiento :: "date \<Rightarrow> string \<Rightarrow> exc + int \<Rightarrow> vencimiento" where
  \<comment> \<open>\<open>except Exception as e\<close> turns every failure into the error dictionary\<close>
  "calcular_vencimiento hoy fecha dias_credito =
     (case compute_vencimiento hoy fecha dias_credito of
        Inr r \<Rightarrow> r
      | Inl e \<Rightarrow> error_result fecha e)"


section \<open>The agent: state, messages and tools\<close>

text \<open>
  A tool call is the dictionary with the keys \<open>name\<close>, \<open>args\<close> and \<open>id\<close>. The arguments
  are of any type \<open>'a\<close>. A tool is an effectful callable: \<open>tool.ainvoke(args)\<close> is a function
  of the arguments and of the outside world \<open>'w\<close>, which gives what the call does and the
  world after it. A call returns a \<open>str\<close>, or a value of another type (given by its
  \<open>str(...)\<close>), or raises an exception of class \<open>Exception\<close> (given by its \<open>str(e)\<close>).
  Cancellation of the task and interpreter exit, which are not of that class, are not
  modelled.
\<close>

record 'a tool_call =
  call_name :: string
  call_args :: 'a
  call_id :: string

datatype 'a message =
    SystemMessage string
  | HumanMessage string
  | AIMessage string "'a tool_call list"
  | ToolMessage string string     \<comment> \<open>content and \<open>tool_call_id\<close>\<close>

record invoice_cache =
  raw_text :: string
  extracted :: bool

record 'a agent_state =
  messages :: "'a message list"
  rag_invoice :: "invoice_cache option"

record 'a state_update =
  \<comment> \<open>the dictionary a node returns; \<open>upd_rag_invoice = None\<close> when it has no key
      \<open>rag_invoice\<close>\<close>
  upd_messages :: "'a message list"
  upd_rag_invoice :: "invoice_cache option"

datatype tool_value = StrValue string | OtherValue string

datatype outcome = Returned tool_value | Raised string

type_synonym ('a, 'w) tool = "'a \<Rightarrow> 'w \<Rightarrow> outcome \<times> 'w"

fun str_value :: "tool_value \<Rightarrow> string" where
  "str_value (StrValue s) = s"
| "str_value (OtherValue s) = s"


section \<open>The DECIDE node\<close>












section \<open>The ACT node\<close>

definition rag_tool_name :: string where
  "rag_tool_name = ''rag_get_invoice_data''"

definition no_existe :: "string \<Rightarrow> string" where
  "no_existe tool_name =
     ''Error: herramienta '' @ [CHR 0x27] @ tool_name @ [CHR 0x27] @ '' no existe.''"

definition error_ejecutando :: "string \<Rightarrow> string \<Rightarrow> string" where
  "error_ejecutando tool_name e = ''Error ejecutando herramienta '' @ tool_name @ '': '' @ e"

definition cache_update :: "string \<Rightarrow> tool_value \<Rightarrow> invoice_cache option \<Rightarrow> invoice_cache option" where
  \<comment> \<open>\<open>if tool_name == "rag_get_invoice_data": if isinstance(result, str) and not
      result.startswith("Error"): updated_state["rag_invoice"] = ...\<close>\<close>
  "cache_update tool_name result updated =
     (if tool_name = rag_tool_name
      then (case result of
              StrValue s \<Rightarrow>
                if \<not> startswith s ''Error''
                then Some \<lparr> raw_text = s, extracted = False \<rparr>
                else updated
            | OtherValue s \<Rightarrow> updated)
      else updated)"

fun tools_loop ::
  "(string \<rightharpoonup> ('a, 'w) tool) \<Rightarrow> 'a tool_call list \<Rightarrow> 'w
     \<Rightarrow> 'a message list \<times> invoice_cache option
     \<Rightarrow> ('a message list \<times> invoice_cache option) \<times> 'w" where
  \<comment> \<open>\<open>for call in tool_calls\<close>, carrying \<open>new_messages\<close> and \<open>updated_state\<close>\<close>
  "tools_loop tools_by_name [] w acc = (acc, w)"
| "tools_loop tools_by_name (call # calls) w (new_messages, updated) =
     (case tools_by_name (call_name call) of
        None \<Rightarrow>
          tools_loop tools_by_name calls w
            (new_messages @ [ToolMessage (no_existe (call_name call)) (call_id call)], updated)
      | Some tool \<Rightarrow>
         (case tool (call_args call) w of
            (Returned result, w') \<Rightarrow>
              tools_loop tools_by_name calls w'
                (new_messages @ [ToolMessage (str_value result) (call_id call)],
                 cache_update (call_name call) result updated)
          | (Raised e, w') \<Rightarrow>
              tools_loop tools_by_name calls w'
                (new_messages
                   @ [ToolMessage (error_ejecutando (call_name call) e) (call_id call)],
                 updated)))"

fun tool_calls_of :: "'a message \<Rightarrow> 'a tool_call list" where
  \<comment> \<open>\<open>getattr(last, "tool_calls", []) or []\<close>\<close>
  "tool_calls_of (AIMessage c tcs) = tcs"
| "tool_calls_of m = []"

definition tools_node ::
  "(string \<rightharpoonup> ('a, 'w) tool) \<Rightarrow> 'a agent_state \<Rightarrow> 'w \<Rightarrow> (exc + 'a state_update) \<times> 'w" where
  "tools_node tools_by_name state w =
     (if messages state = [] then (Inl (IndexError ''list index out of range''), w)
      else (case tools_loop tools_by_name (tool_calls_of (last (messages state))) w ([], None) of
              ((new_messages, updated), w') \<Rightarrow>
                (Inr \<lparr> upd_messages = new_messages, upd_rag_invoice = updated \<rparr>, w')))"

definition apply_tools_update :: "'a agent_state \<Rightarrow> 'a state_update \<Rightarrow> 'a agent_state" where
  \<comment> \<open>what the graph does with the dictionary \<open>tools_node\<close> returns: the reducer
      \<open>add_messages\<close> appends the new messages, which have no id yet, and
      \<open>rag_invoice\<close> is overwritten when the dictionary has the key\<close>
  "apply_tools_update state upd =
     \<lparr> messages = messages state @ upd_messages upd,
       rag_invoice = (case upd_rag_invoice upd of
                        None \<Rightarrow> rag_invoice state
                      | Some cached \<Rightarrow> Some cached) \<rparr>"

definition should_continue :: "'a agent_state \<Rightarrow> exc + bool" where
  \<comment> \<open>\<open>Inr True\<close> for the edge to \<open>tools\<close>, \<open>Inr False\<close> for \<open>END\<close>; on an empty list
      \<open>state["messages"][-1]\<close> raises IndexError\<close>
  "should_continue state =
     (if messages state = [] then Inl (IndexError ''list index out of range'')
      else (case last (messages state) of
              AIMessage c tcs \<Rightarrow> Inr (tcs \<noteq> [])
            | _ \<Rightarrow> Inr False))"


section \<open>The service\<close>



section \<open>What each tool call did\<close>

text \<open>
  \<open>call_outcomes\<close> lists, for the calls of one ACT step in their order, what the
  dispatch of each call met: \<open>None\<close> when no tool has the name, otherwise what the tool
  did, each tool starting from the world the one before it left.
\<close>

fun call_outcomes ::
  "(string \<rightharpoonup> ('a, 'w) tool) \<Rightarrow> 'a tool_call list \<Rightarrow> 'w \<Rightarrow> outcome option list" where
  "call_outcomes tools_by_name [] w = []"
| "call_outcomes tools_by_name (call # calls) w =
     (case tools_by_name (call_name call) of
        None \<Rightarrow> None # call_outcomes tools_by_name calls w
      | Some tool \<Rightarrow>
          Some (fst (tool (call_args call) w))
            # call_outcomes tools_by_name calls (snd (tool (call_args call) w)))"

fun result_text :: "string \<Rightarrow> outcome option \<Rightarrow> string" where
  "result_text tool_name None = no_existe tool_name"
| "result_text tool_name (Some (Returned v)) = str_value v"
| "result_text tool_name (Some (Raised e)) = error_ejecutando tool_name e"

fun caches :: "'a tool_call \<times> outcome option \<Rightarrow> bool" where
  \<comment> \<open>a call of \<open>rag_get_invoice_data\<close> that returned a \<open>str\<close> not starting with "Error"\<close>
  "caches (call, Some (Returned (StrValue s))) =
     (call_name call = rag_tool_name \<and> \<not> startswith s ''Error'')"
| "caches (call, out) = False"

definition tool_message :: "'a tool_call \<times> outcome option \<Rightarrow> 'a message" where
  "tool_message p = ToolMessage (result_text (call_name (fst p)) (snd p)) (call_id (fst p))"


section \<open>Notions used to state the properties\<close>

text \<open>
  \<open>min_group_len\<close> is the least number of characters group 1 of a pattern can hold;
  \<open>id_char\<close> holds for the characters the classes of the five patterns accept;
  \<open>last_human_content\<close> is the text of the most recent user message of a state.
\<close>

fun min_group_len :: "pattern \<Rightarrow> bool \<Rightarrow> nat" where
  "min_group_len [] ing = 0"
| "min_group_len (Bound # as) ing = min_group_len as ing"
| "min_group_len (GOpen # as) ing = min_group_len as True"
| "min_group_len (GClose # as) ing = min_group_len as False"
| "min_group_len (Rep cl lo hi # as) ing = (if ing then lo else 0) + min_group_len as ing"

definition id_char :: "char \<Rightarrow> bool" where
  "id_char c = (is_letter c \<or> is_digit c \<or> is_space c \<or> code c = 45)"

definition known_pattern :: "pattern \<Rightarrow> bool" where
  "known_pattern pat = (pat \<in> {pat_letters_digits, pat_hyphen, pat_factura, pat_two_nine, pat_cufe})"




section \<open>Example inputs\<close>

definition example_calls :: "string tool_call list" where
  "example_calls = [\<lparr> call_name = ''rag_get_invoice_data'', call_args = ''HBE122090'', call_id = ''A'' \<rparr>,
             \<lparr> call_name = ''borrar'', call_args = ''x'', call_id = ''B'' \<rparr>,
             \<lparr> call_name = ''calcular_vencimiento'', call_args = ''y'', call_id = ''C'' \<rparr>]"

definition example_state :: "string agent_state" where
  "example_state = \<lparr> messages = [HumanMessage ''dame la factura HBE122090'', AIMessage [] example_calls],
              rag_invoice = None \<rparr>"

definition example_tools :: "string \<rightharpoonup> (string, nat) tool" where
  "example_tools = [''rag_get_invoice_data'' \<mapsto> (\<lambda>args w. (Returned (StrValue (''Factura '' @ args)), Suc w)),
             ''calcular_vencimiento'' \<mapsto> (\<lambda>args w. (Raised ''sin conexion'', Suc w))]"

definition example_question :: string where
  "example_question = ''factura HBE122090 con CUFE ABCDEFGHIJKLMNOPQRSTUVWXYZ123456''"

definition question_dame :: string where
  "question_dame = ''dame la factura HBE122090''"

definition question_cuando :: string where
  "question_cuando = [CHR 0xBF] @ ''cu'' @ [CHR 0xE1] @ ''ndo vence HBE122090?''"

definition question_otra :: string where
  "question_otra = ''dame la factura XYZ999999''"

definition example_md5 :: "string \<Rightarrow> string" where
  "example_md5 q = ''d41d8cd98f00b204e9800998ecf8427e''"






section \<open>The ACT node: one result per call, in order\<close>

lemma tools_loop_messages:
  "fst (fst (tools_loop T calls w (msgs, upd))) =
     msgs @ map tool_message (zip calls (call_outcomes T calls w))"
proof (induction calls arbitrary: w msgs upd)
  case Nil
  then show ?case by simp
next
  case (Cons call calls)
  show ?case
  proof (cases "T (call_name call)")
    case None
    then show ?thesis using Cons.IH by (simp add: tool_message_def)
  next
    case (Some tool)
    obtain out w' where tw: "tool (call_args call) w = (out, w')" by (cases "tool (call_args call) w")
    show ?thesis
    proof (cases out)
      case (Returned v)
      then show ?thesis using Some tw Cons.IH by (simp add: tool_message_def)
    next
      case (Raised e)
      then show ?thesis using Some tw Cons.IH by (simp add: tool_message_def)
    qed
  qed
qed

lemma tools_loop_cache_frame:
  "\<forall>p \<in> set (zip calls (call_outcomes T calls w)). \<not> caches p \<Longrightarrow>
     snd (fst (tools_loop T calls w (msgs, upd))) = upd"
proof (induction calls arbitrary: w msgs upd)
  case Nil
  then show ?case by simp
next
  case (Cons call calls)
  show ?case
  proof (cases "T (call_name call)")
    case None
    then show ?thesis using Cons by simp
  next
    case (Some tool)
    obtain out w' where tw: "tool (call_args call) w = (out, w')" by (cases "tool (call_args call) w")
    show ?thesis
    proof (cases out)
      case (Returned v)
      have nc: "\<not> caches (call, Some (Returned v))" using Cons.prems Some tw Returned by simp
      have "cache_update (call_name call) v upd = upd"
        using nc by (cases v) (auto simp: cache_update_def)
      then show ?thesis using Some tw Returned Cons by simp
    next
      case (Raised e)
      then show ?thesis using Some tw Cons by simp
    qed
  qed
qed

lemma tools_loop_cache_some:
  "snd (fst (tools_loop T calls w (msgs, upd))) = Some cached \<Longrightarrow>
     upd = Some cached \<or>
     (\<exists>call s. (call, Some (Returned (StrValue s))) \<in> set (zip calls (call_outcomes T calls w))
         \<and> caches (call, Some (Returned (StrValue s)))
         \<and> cached = \<lparr> raw_text = s, extracted = False \<rparr>)"
proof (induction calls arbitrary: w msgs upd)
  case Nil
  then show ?case by simp
next
  case (Cons call calls)
  show ?case
  proof (cases "T (call_name call)")
    case None
    then show ?thesis using Cons.prems Cons.IH[of w _ upd] by fastforce
  next
    case (Some tool)
    obtain out w' where tw: "tool (call_args call) w = (out, w')" by (cases "tool (call_args call) w")
    show ?thesis
    proof (cases out)
      case (Returned v)
      from Cons.prems Some tw Returned
      have "snd (fst (tools_loop T calls w' (msgs @ [ToolMessage (str_value v) (call_id call)],
                 cache_update (call_name call) v upd))) = Some cached" by simp
      from Cons.IH[OF this]
      consider "cache_update (call_name call) v upd = Some cached"
        | "\<exists>c s. (c, Some (Returned (StrValue s))) \<in> set (zip calls (call_outcomes T calls w'))
         \<and> caches (c, Some (Returned (StrValue s)))
         \<and> cached = \<lparr> raw_text = s, extracted = False \<rparr>" by blast
      then show ?thesis
      proof cases
        case 1
        then show ?thesis using Some tw Returned
          by (cases v) (auto simp: cache_update_def split: if_splits)
      next
        case 2
        then show ?thesis using Some tw Returned by auto
      qed
    next
      case (Raised e)
      then show ?thesis using Some tw Cons.prems Cons.IH[of w' _ upd] by fastforce
    qed
  qed
qed

lemma tools_loop_cache_hit:
  "\<exists>p \<in> set (zip calls (call_outcomes T calls w)). caches p \<Longrightarrow>
     snd (fst (tools_loop T calls w (msgs, upd))) \<noteq> None"
proof (induction calls arbitrary: w msgs upd)
  case Nil
  then show ?case by simp
next
  case (Cons call calls)
  show ?case
  proof (cases "T (call_name call)")
    case None
    then show ?thesis using Cons by auto
  next
    case (Some tool)
    obtain out w' where tw: "tool (call_args call) w = (out, w')" by (cases "tool (call_args call) w")
    let ?rest = "zip calls (call_outcomes T calls w')"
    show ?thesis
    proof (cases "\<exists>p \<in> set ?rest. caches p")
      case True
      then show ?thesis using Some tw Cons.IH by (cases out) auto
    next
      case False
      then have here: "caches (call, Some out)" using Cons.prems Some tw by auto
      then obtain s where out: "out = Returned (StrValue s)"
        by (cases out; cases "case out of Returned v \<Rightarrow> v") auto
      have "cache_update (call_name call) (StrValue s) upd = Some \<lparr> raw_text = s, extracted = False \<rparr>"
        using here out by (simp add: cache_update_def)
      moreover have "\<forall>p \<in> set ?rest. \<not> caches p" using False by blast
      ultimately show ?thesis
        using Some tw out tools_loop_cache_frame[of calls T w'] by simp
    qed
  qed
qed


lemma length_call_outcomes: "length (call_outcomes T calls w) = length calls"
  by (induction calls arbitrary: w) (auto split: option.splits)


lemma tools_node_eq:
  "messages state \<noteq> [] \<Longrightarrow>
   \<exists>upd w'. tools_node T state w = (Inr upd, w') \<and>
     upd_messages upd = fst (fst (tools_loop T (tool_calls_of (last (messages state))) w ([], None))) \<and>
     upd_rag_invoice upd = snd (fst (tools_loop T (tool_calls_of (last (messages state))) w ([], None)))"
  by (auto simp: tools_node_def split: prod.splits)

text \<open>
  Claim C7. When the last message of the state is an assistant message that requests the
  calls \<open>[c1, ..., cn]\<close>, the ACT node returns without an exception exactly one tool
  message per call, in the order of the calls: the i-th message carries the id of the
  i-th call and, as its content, the result of dispatching that same call (the tools
  being invoked in the order of the calls, each from the world the one before it
  left). The graph appends these messages right after that assistant message.
\<close>

theorem tools_node_results_in_call_order:
  assumes "messages state \<noteq> []" and "last (messages state) = AIMessage content calls"
  shows "\<exists>upd w'. tools_node T state w = (Inr upd, w') \<and>
           upd_messages upd =
             map (\<lambda>(call, out). ToolMessage (result_text (call_name call) out) (call_id call))
                 (zip calls (call_outcomes T calls w)) \<and>
           length (upd_messages upd) = length calls \<and>
           (\<forall>i < length calls.
              upd_messages upd ! i =
                ToolMessage (result_text (call_name (calls ! i)) (call_outcomes T calls w ! i))
                            (call_id (calls ! i))) \<and>
           messages (apply_tools_update state upd) = messages state @ upd_messages upd"
proof -
  let ?outs = "call_outcomes T calls w"
  from tools_node_eq[OF assms(1), of T w] obtain upd w' where
    tn: "tools_node T state w = (Inr upd, w')" and
    um: "upd_messages upd = fst (fst (tools_loop T calls w ([], None)))"
    using assms(2) by auto
  have m: "upd_messages upd = map tool_message (zip calls ?outs)"
    using um by (simp add: tools_loop_messages)
  have tm: "tool_message = (\<lambda>(call, out). ToolMessage (result_text (call_name call) out) (call_id call))"
    by (rule ext) (simp add: tool_message_def split: prod.splits)
  have eq: "upd_messages upd =
             map (\<lambda>(call, out). ToolMessage (result_text (call_name call) out) (call_id call))
                 (zip calls ?outs)"
    using m unfolding tm .
  have len: "length (upd_messages upd) = length calls"
    using m by (simp add: length_call_outcomes)
  have each: "\<forall>i < length calls.
              upd_messages upd ! i =
                ToolMessage (result_text (call_name (calls ! i)) (?outs ! i)) (call_id (calls ! i))"
    using m by (simp add: length_call_outcomes tool_message_def)
  have app: "messages (apply_tools_update state upd) = messages state @ upd_messages upd"
    by (simp add: apply_tools_update_def)
  show ?thesis using tn eq len each app by blast
qed

theorem tools_node_results_in_call_order_witness:
  "messages example_state \<noteq> [] \<and> last (messages example_state) = AIMessage [] example_calls \<and>
   map call_id example_calls = [''A'', ''B'', ''C''] \<and>
   map (\<lambda>(call, out). ToolMessage (result_text (call_name call) out) (call_id call))
       (zip example_calls (call_outcomes example_tools example_calls 0))
     = [ToolMessage ''Factura HBE122090'' ''A'',
        ToolMessage (no_existe ''borrar'') ''B'',
        ToolMessage (error_ejecutando ''calcular_vencimiento'' ''sin conexion'') ''C''] \<and>
   (\<exists>upd w'. tools_node example_tools example_state 0 = (Inr upd, w') \<and>
      upd_messages upd
        = [ToolMessage ''Factura HBE122090'' ''A'',
           ToolMessage (no_existe ''borrar'') ''B'',
           ToolMessage (error_ejecutando ''calcular_vencimiento'' ''sin conexion'') ''C''] \<and>
      messages (apply_tools_update example_state upd)
        = messages example_state
            @ [ToolMessage ''Factura HBE122090'' ''A'',
               ToolMessage (no_existe ''borrar'') ''B'',
               ToolMessage (error_ejecutando ''calcular_vencimiento'' ''sin conexion'') ''C''])"
proof -
  have h1: "messages example_state \<noteq> []" by (simp add: example_state_def)
  have h2: "last (messages example_state) = AIMessage [] example_calls" by (simp add: example_state_def)
  have h3: "map call_id example_calls = [''A'', ''B'', ''C'']" by (simp add: example_calls_def)
  have h4: "map (\<lambda>(call, out). ToolMessage (result_text (call_name call) out) (call_id call))
       (zip example_calls (call_outcomes example_tools example_calls 0))
     = [ToolMessage ''Factura HBE122090'' ''A'',
        ToolMessage (no_existe ''borrar'') ''B'',
        ToolMessage (error_ejecutando ''calcular_vencimiento'' ''sin conexion'') ''C'']"
    by (simp add: example_calls_def example_tools_def)
  from tools_node_results_in_call_order[OF h1 h2, of example_tools 0]
  obtain upd w' where tn: "tools_node example_tools example_state 0 = (Inr upd, w')"
    and um: "upd_messages upd =
             map (\<lambda>(call, out). ToolMessage (result_text (call_name call) out) (call_id call))
                 (zip example_calls (call_outcomes example_tools example_calls 0))"
    and app: "messages (apply_tools_update example_state upd)
                = messages example_state @ upd_messages upd"
    by blast
  from um h4 have um': "upd_messages upd
        = [ToolMessage ''Factura HBE122090'' ''A'',
           ToolMessage (no_existe ''borrar'') ''B'',
           ToolMessage (error_ejecutando ''calcular_vencimiento'' ''sin conexion'') ''C'']"
    by simp
  with app have app': "messages (apply_tools_update example_state upd)
        = messages example_state
            @ [ToolMessage ''Factura HBE122090'' ''A'',
               ToolMessage (no_existe ''borrar'') ''B'',
               ToolMessage (error_ejecutando ''calcular_vencimiento'' ''sin conexion'') ''C'']"
    by simp
  show ?thesis using h1 h2 h3 h4 tn um' app' by blast
qed



text \<open>
  Claim C9. In one ACT step the returned dictionary has the key \<open>rag_invoice\<close> exactly
  when some call named \<open>rag_get_invoice_data\<close> returned a \<open>str\<close> that does not start with
  "Error"; the value is then the text of such a call with \<open>extracted = False\<close>. When no
  call did (other tools, results starting with "Error", results that are not a \<open>str\<close>,
  tools that raise, names without a tool), \<open>rag_invoice\<close> of the state stays as it was.
\<close>

theorem rag_invoice_updated_iff:
  assumes "messages state \<noteq> []"
  shows "\<exists>upd w'. tools_node T state w = (Inr upd, w') \<and>
           (let trace = zip (tool_calls_of (last (messages state)))
                            (call_outcomes T (tool_calls_of (last (messages state))) w)
            in (upd_rag_invoice upd \<noteq> None) = (\<exists>p \<in> set trace. caches p) \<and>
               (\<forall>cached. upd_rag_invoice upd = Some cached \<longrightarrow>
                  (\<exists>call s. (call, Some (Returned (StrValue s))) \<in> set trace \<and>
                             caches (call, Some (Returned (StrValue s))) \<and>
                             cached = \<lparr> raw_text = s, extracted = False \<rparr>)) \<and>
               (upd_rag_invoice upd = None \<longrightarrow>
                  rag_invoice (apply_tools_update state upd) = rag_invoice state))"
proof -
  let ?calls = "tool_calls_of (last (messages state))"
  let ?trace = "zip ?calls (call_outcomes T ?calls w)"
  from tools_node_eq[OF assms, of T w] obtain upd w' where
    tn: "tools_node T state w = (Inr upd, w')" and
    ur: "upd_rag_invoice upd = snd (fst (tools_loop T ?calls w ([], None)))"
    by auto
  have a: "(upd_rag_invoice upd \<noteq> None) = (\<exists>p \<in> set ?trace. caches p)"
  proof (cases "\<exists>p \<in> set ?trace. caches p")
    case True
    then show ?thesis using ur tools_loop_cache_hit[of ?calls T w "[]" None] by simp
  next
    case False
    then have "\<forall>p \<in> set ?trace. \<not> caches p" by blast
    from tools_loop_cache_frame[OF this, of "[]" None] show ?thesis using ur False by simp
  qed
  have b: "\<exists>call s. (call, Some (Returned (StrValue s))) \<in> set ?trace \<and>
                     caches (call, Some (Returned (StrValue s))) \<and>
                     cached = \<lparr> raw_text = s, extracted = False \<rparr>"
    if "upd_rag_invoice upd = Some cached" for cached
    using that ur tools_loop_cache_some[of T ?calls w "[]" None cached] by simp
  have c: "rag_invoice (apply_tools_update state upd) = rag_invoice state"
    if "upd_rag_invoice upd = None"
    using that by (simp add: apply_tools_update_def)
  show ?thesis using tn a b c by (simp add: Let_def)
qed

theorem rag_invoice_updated_iff_witness:
  "messages example_state \<noteq> [] \<and>
   set (zip (tool_calls_of (last (messages example_state)))
            (call_outcomes example_tools (tool_calls_of (last (messages example_state))) 0)) \<inter> Collect caches
     = {(example_calls ! 0, Some (Returned (StrValue ''Factura HBE122090'')))} \<and>
   (\<exists>upd w'. tools_node example_tools example_state 0 = (Inr upd, w') \<and>
           (let trace = zip (tool_calls_of (last (messages example_state)))
                            (call_outcomes example_tools (tool_calls_of (last (messages example_state))) 0)
            in (upd_rag_invoice upd \<noteq> None) = (\<exists>p \<in> set trace. caches p) \<and>
               (\<forall>cached. upd_rag_invoice upd = Some cached \<longrightarrow>
                  (\<exists>call s. (call, Some (Returned (StrValue s))) \<in> set trace \<and>
                             caches (call, Some (Returned (StrValue s))) \<and>
                             cached = \<lparr> raw_text = s, extracted = False \<rparr>)) \<and>
               (upd_rag_invoice upd = None \<longrightarrow>
                  rag_invoice (apply_tools_update example_state upd) = rag_invoice example_state)))"
proof -
  have h1: "messages example_state \<noteq> []" by (simp add: example_state_def)
  have h2: "set (zip (tool_calls_of (last (messages example_state)))
            (call_outcomes example_tools (tool_calls_of (last (messages example_state))) 0)) \<inter> Collect caches
     = {(example_calls ! 0, Some (Returned (StrValue ''Factura HBE122090'')))}"
    by (auto simp: example_state_def example_calls_def example_tools_def rag_tool_name_def startswith_def)
  show ?thesis
    using h1 h2 rag_invoice_updated_iff[OF h1, of example_tools 0] by blast
qed


section \<open>The due date: parsing, arithmetic and failures\<close>

lemma parse_fecha_unfold:
  "parse_fecha formatos_fecha s =
     (case strptime_date (strip s) fmt_Y_m_d of
        Some d \<Rightarrow> Some d
      | None \<Rightarrow>
         (case strptime_date (strip s) fmt_d_m_Y of
            Some d \<Rightarrow> Some d
          | None \<Rightarrow>
             (case strptime_date (strip s) fmt_d_m_Y_slash of
                Some d \<Rightarrow> Some d
              | None \<Rightarrow> strptime_date (strip s) fmt_Y_m_d_slash)))"
  by (simp add: formatos_fecha_def split: option.splits)

lemma mk_date_2025_10_3: "mk_date 2025 10 3 = Some 739527"
  by (simp add: mk_date_def days_in_month_def ymd2ord_def days_before_year_def
        days_before_month_def is_leap_def)

lemma mk_date_9999_12_31: "mk_date 9999 12 31 = Some 3652059"
  by (simp add: mk_date_def days_in_month_def ymd2ord_def days_before_year_def
        days_before_month_def is_leap_def)

lemma strip_03_10_2025: "strip ''03-10-2025'' = ''03-10-2025''"
  by code_simp

lemma ymd_03_10_2025_first: "strptime_ymd ''03-10-2025'' fmt_Y_m_d = None"
  by code_simp

lemma ymd_03_10_2025_second: "strptime_ymd ''03-10-2025'' fmt_d_m_Y = Some (2025, 10, 3)"
  by code_simp

lemma parse_03_10_2025: "parse_fecha formatos_fecha ''03-10-2025'' = Some 739527"
  by (simp add: parse_fecha_unfold strip_03_10_2025 strptime_date_def ymd_03_10_2025_first
        ymd_03_10_2025_second mk_date_2025_10_3)

lemma strip_2025_01_01: "strip ''2025-01-01'' = ''2025-01-01''"
  by code_simp

lemma ymd_2025_01_01: "strptime_ymd ''2025-01-01'' fmt_Y_m_d = Some (2025, 1, 1)"
  by code_simp

lemma parse_2025_01_01: "parse_fecha formatos_fecha ''2025-01-01'' = Some (ymd2ord 2025 1 1)"
  by (simp add: parse_fecha_unfold strip_2025_01_01 strptime_date_def ymd_2025_01_01
        mk_date_def days_in_month_def)

lemma parse_not_a_date: "parse_fecha formatos_fecha ''not-a-date'' = None"
  by code_simp

lemma strip_9999: "strip ''9999-12-31'' = ''9999-12-31''"
  by code_simp

lemma ymd_9999: "strptime_ymd ''9999-12-31'' fmt_Y_m_d = Some (9999, 12, 31)"
  by code_simp

lemma parse_9999: "parse_fecha formatos_fecha ''9999-12-31'' = Some 3652059"
  by (simp add: parse_fecha_unfold strip_9999 strptime_date_def ymd_9999 mk_date_9999_12_31)

lemma calcular_ok:
  assumes "parse_fecha formatos_fecha fecha = Some issue"
      and "\<bar>dias\<bar> \<le> 999999999" and "1 \<le> issue + dias" and "issue + dias \<le> max_ordinal"
  shows "calcular_vencimiento hoy fecha (Inr dias) =
           \<lparr> fecha_emision = JDate issue,
             fecha_vencimiento = JDate (issue + dias),
             vencida = JBool (issue + dias - hoy < 0),
             dias_restantes = JInt (issue + dias - hoy),
             mensaje = JStr (if issue + dias - hoy < 0 then mensaje_vencida (issue + dias - hoy)
                             else mensaje_faltan (issue + dias - hoy)),
             error = JNull \<rparr>"
  using assms
  by (simp add: calcular_vencimiento_def compute_vencimiento_def timedelta_days_def date_add_def
        date_diff_days_def Let_def)

lemma calcular_failure:
  assumes "compute_vencimiento hoy fecha dias_credito = Inl e"
  shows "calcular_vencimiento hoy fecha dias_credito = error_result fecha e"
  using assms by (simp add: calcular_vencimiento_def)

lemma compute_parse_fails:
  "parse_fecha formatos_fecha fecha = None \<Longrightarrow>
     compute_vencimiento hoy fecha dias_credito = Inl (ValueError (parse_error_text fecha))"
  by (simp add: compute_vencimiento_def)

lemma compute_coercion_fails:
  "parse_fecha formatos_fecha fecha = Some d \<Longrightarrow>
     compute_vencimiento hoy fecha (Inl e) = Inl e"
  by (simp add: compute_vencimiento_def)

text \<open>
  Claim C4. For every issue-date text the four formats are tried in the order
  \<open>%Y-%m-%d\<close>, \<open>%d-%m-%Y\<close>, \<open>%d/%m/%Y\<close>, \<open>%Y/%m/%d\<close> on the stripped text, and the first
  one that parses gives the date. The text "03-10-2025" does not parse with the first
  format, parses with the second one as day 3, month 10, year 2025, and that date is
  the issue date of the result.
\<close>

theorem date_format_precedence:
  "parse_fecha formatos_fecha fecha =
     (case strptime_date (strip fecha) fmt_Y_m_d of
        Some d \<Rightarrow> Some d
      | None \<Rightarrow>
         (case strptime_date (strip fecha) fmt_d_m_Y of
            Some d \<Rightarrow> Some d
          | None \<Rightarrow>
             (case strptime_date (strip fecha) fmt_d_m_Y_slash of
                Some d \<Rightarrow> Some d
              | None \<Rightarrow> strptime_date (strip fecha) fmt_Y_m_d_slash)))
   \<and> strptime_date ''03-10-2025'' fmt_Y_m_d = None
   \<and> strptime_ymd ''03-10-2025'' fmt_d_m_Y = Some (2025, 10, 3)
   \<and> parse_fecha formatos_fecha ''03-10-2025'' = Some (ymd2ord 2025 10 3)
   \<and> fecha_emision (calcular_vencimiento hoy ''03-10-2025'' (Inr 10)) = JDate (ymd2ord 2025 10 3)"
proof -
  have o: "ymd2ord 2025 10 3 = 739527"
    using mk_date_2025_10_3 by (simp add: mk_date_def split: if_splits)
  have "calcular_vencimiento hoy ''03-10-2025'' (Inr 10) =
           \<lparr> fecha_emision = JDate 739527,
             fecha_vencimiento = JDate (739527 + 10),
             vencida = JBool (739527 + 10 - hoy < 0),
             dias_restantes = JInt (739527 + 10 - hoy),
             mensaje = JStr (if 739527 + 10 - hoy < 0 then mensaje_vencida (739527 + 10 - hoy)
                             else mensaje_faltan (739527 + 10 - hoy)),
             error = JNull \<rparr>"
    by (rule calcular_ok[OF parse_03_10_2025]) (simp_all add: max_ordinal_def)
  then have "fecha_emision (calcular_vencimiento hoy ''03-10-2025'' (Inr 10)) = JDate 739527"
    by simp
  then show ?thesis
    using parse_fecha_unfold[of fecha] ymd_03_10_2025_first ymd_03_10_2025_second
      parse_03_10_2025 o
    by (simp add: strptime_date_def)
qed

text \<open>
  Claim C5, amended. When the issue date parses, the credit days are at most 999999999
  in magnitude and issue date plus credit days is a date between 0001-01-01 and
  9999-12-31, the result has the due date issue date + credit days (in calendar days),
  the remaining days due date - current date, and \<open>vencida\<close> true exactly when the
  remaining days are negative; on the due date itself \<open>vencida\<close> is false.
\<close>

theorem due_date_arithmetic:
  assumes "parse_fecha formatos_fecha fecha = Some issue"
      and "\<bar>dias\<bar> \<le> 999999999" and "1 \<le> issue + dias" and "issue + dias \<le> max_ordinal"
  shows "fecha_emision (calcular_vencimiento hoy fecha (Inr dias)) = JDate issue \<and>
         fecha_vencimiento (calcular_vencimiento hoy fecha (Inr dias)) = JDate (issue + dias) \<and>
         dias_restantes (calcular_vencimiento hoy fecha (Inr dias)) = JInt (issue + dias - hoy) \<and>
         vencida (calcular_vencimiento hoy fecha (Inr dias)) = JBool (issue + dias - hoy < 0) \<and>
         error (calcular_vencimiento hoy fecha (Inr dias)) = JNull \<and>
         (vencida (calcular_vencimiento (issue + dias) fecha (Inr dias)) = JBool False)"
  using calcular_ok[OF assms, of hoy] calcular_ok[OF assms, of "issue + dias"] by simp

theorem due_date_arithmetic_witness:
  "parse_fecha formatos_fecha ''2025-01-01'' = Some (ymd2ord 2025 1 1) \<and>
   \<bar>30::int\<bar> \<le> 999999999 \<and> 1 \<le> ymd2ord 2025 1 1 + 30 \<and>
   ymd2ord 2025 1 1 + 30 \<le> max_ordinal \<and>
   fecha_vencimiento (calcular_vencimiento (ymd2ord 2025 1 31) ''2025-01-01'' (Inr 30))
     = JDate (ymd2ord 2025 1 31) \<and>
   dias_restantes (calcular_vencimiento (ymd2ord 2025 1 31) ''2025-01-01'' (Inr 30)) = JInt 0 \<and>
   vencida (calcular_vencimiento (ymd2ord 2025 1 31) ''2025-01-01'' (Inr 30)) = JBool False \<and>
   dias_restantes (calcular_vencimiento (ymd2ord 2025 2 1) ''2025-01-01'' (Inr 30)) = JInt (- 1) \<and>
   vencida (calcular_vencimiento (ymd2ord 2025 2 1) ''2025-01-01'' (Inr 30)) = JBool True"
proof -
  have o: "ymd2ord 2025 1 1 = 739252" "ymd2ord 2025 1 31 = 739282" "ymd2ord 2025 2 1 = 739283"
    by (simp_all add: ymd2ord_def days_before_year_def days_before_month_def is_leap_def)
  have h1: "parse_fecha formatos_fecha ''2025-01-01'' = Some (ymd2ord 2025 1 1)"
    by (rule parse_2025_01_01)
  have h2: "\<bar>30::int\<bar> \<le> 999999999" by simp
  have h3: "1 \<le> ymd2ord 2025 1 1 + 30" unfolding o by simp
  have h4: "ymd2ord 2025 1 1 + 30 \<le> max_ordinal" unfolding o by (simp add: max_ordinal_def)
  show ?thesis
    using h1 h2 h3 h4 due_date_arithmetic[OF h1 h2 h3 h4, of "ymd2ord 2025 1 31"]
      due_date_arithmetic[OF h1 h2 h3 h4, of "ymd2ord 2025 2 1"]
    unfolding o by simp
qed

text \<open>
  Claim C5 as stated fails: the issue date 9999-12-31 parses, and with one credit day
  the result has no due date, no remaining days and no \<open>vencida\<close>, only the error
  "date value out of range".
\<close>

theorem due_date_overflow_counterexample:
  "parse_fecha formatos_fecha ''9999-12-31'' = Some 3652059 \<and>
   fecha_vencimiento (calcular_vencimiento 739527 ''9999-12-31'' (Inr 1)) = JNull \<and>
   dias_restantes (calcular_vencimiento 739527 ''9999-12-31'' (Inr 1)) = JNull \<and>
   vencida (calcular_vencimiento 739527 ''9999-12-31'' (Inr 1)) = JNull \<and>
   error (calcular_vencimiento 739527 ''9999-12-31'' (Inr 1)) = JStr ''date value out of range''"
  by (simp add: parse_9999 calcular_vencimiento_def compute_vencimiento_def timedelta_days_def
        date_add_def max_ordinal_def error_result_def)

text \<open>
  Claim C3 as stated fails: for the text "not-a-date" no format parses, and the field
  \<open>fecha_emision\<close> of the result is that text, not null.
\<close>

theorem failure_result_counterexample:
  "parse_fecha formatos_fecha ''not-a-date'' = None \<and>
   fecha_emision (calcular_vencimiento 739527 ''not-a-date'' (Inr 5)) = JStr ''not-a-date'' \<and>
   fecha_emision (calcular_vencimiento 739527 ''not-a-date'' (Inr 5)) \<noteq> JNull"
  by (simp add: parse_not_a_date calcular_vencimiento_def compute_vencimiento_def error_result_def)

text \<open>
  Claim C3, amended. When no format parses the issue date, or \<open>int(dias_credito)\<close>
  raises, \<open>calcular_vencimiento\<close> returns the error dictionary: \<open>fecha_vencimiento\<close>,
  \<open>vencida\<close> and \<open>dias_restantes\<close> are null, \<open>fecha_emision\<close> is the text it was given, and
  \<open>error\<close> is the description of the failure (the parse message when the date does not
  parse, otherwise the text of the exception \<open>int\<close> raised).
\<close>

theorem failure_gives_error_result:
  assumes "parse_fecha formatos_fecha fecha = None \<or> dias_credito = Inl e"
  shows "\<exists>failure. calcular_vencimiento hoy fecha dias_credito = error_result fecha failure \<and>
           (parse_fecha formatos_fecha fecha = None \<longrightarrow>
              failure = ValueError (parse_error_text fecha)) \<and>
           (parse_fecha formatos_fecha fecha \<noteq> None \<longrightarrow> failure = e) \<and>
           fecha_emision (calcular_vencimiento hoy fecha dias_credito) = JStr fecha \<and>
           fecha_vencimiento (calcular_vencimiento hoy fecha dias_credito) = JNull \<and>
           vencida (calcular_vencimiento hoy fecha dias_credito) = JNull \<and>
           dias_restantes (calcular_vencimiento hoy fecha dias_credito) = JNull \<and>
           error (calcular_vencimiento hoy fecha dias_credito) = JStr (str_exc failure)"
proof (cases "parse_fecha formatos_fecha fecha")
  case None
  from calcular_failure[OF compute_parse_fails[OF None, of hoy dias_credito]]
  show ?thesis using None by (simp add: error_result_def)
next
  case (Some d)
  with assms have "dias_credito = Inl e" by simp
  with calcular_failure[OF compute_coercion_fails[OF Some, of hoy e]]
  show ?thesis using Some by (simp add: error_result_def)
qed

theorem failure_gives_error_result_witness:
  "(parse_fecha formatos_fecha ''not-a-date'' = None \<or> (Inr 5 :: exc + int) = Inl (TypeError [])) \<and>
   fecha_emision (calcular_vencimiento 739527 ''not-a-date'' (Inr 5)) = JStr ''not-a-date'' \<and>
   fecha_vencimiento (calcular_vencimiento 739527 ''not-a-date'' (Inr 5)) = JNull \<and>
   vencida (calcular_vencimiento 739527 ''not-a-date'' (Inr 5)) = JNull \<and>
   dias_restantes (calcular_vencimiento 739527 ''not-a-date'' (Inr 5)) = JNull \<and>
   error (calcular_vencimiento 739527 ''not-a-date'' (Inr 5)) = JStr (parse_error_text ''not-a-date'')"
proof -
  have h: "parse_fecha formatos_fecha ''not-a-date'' = None \<or> (Inr 5 :: exc + int) = Inl (TypeError [])"
    using parse_not_a_date by simp
  from failure_gives_error_result[OF h, of 739527]
  show ?thesis using h parse_not_a_date by auto
qed


section \<open>The two extractors are one function\<close>

lemma digit_not_letter: "is_digit c \<Longrightarrow> \<not> is_letter c"
  by (auto simp: is_digit_def is_letter_def is_upper_def is_lower_def)

lemma digit_is_word: "is_digit c \<Longrightarrow> is_word c"
  by (simp add: is_word_def)

lemma first_some_single: "first_some [x] = x"
  by (cases x) simp_all

lemma run_prefix:
  "n \<le> length (takeWhile P s) \<Longrightarrow>
     \<exists>pre rest. s = pre @ rest \<and> length pre = n \<and> (\<forall>c \<in> set pre. P c)"
proof -
  assume n: "n \<le> length (takeWhile P s)"
  have "s = take n s @ drop n s" by simp
  moreover have "length (take n s) = n"
    using n length_takeWhile_le[of P s] by simp
  moreover have "\<forall>c \<in> set (take n s). P c"
  proof
    fix c assume "c \<in> set (take n s)"
    moreover have "take n s = take n (takeWhile P s)"
      using n by (metis append_eq_conv_conj takeWhile_dropWhile_id take_append take_all_iff
            diff_is_0_eq' take_0 append_Nil2 length_take min.absorb2)
    ultimately have "c \<in> set (takeWhile P s)" by (metis in_set_takeD)
    then show "P c" by (rule set_takeWhileD[THEN conjunct2])
  qed
  ultimately show ?thesis by blast
qed

lemma re_match_Rep_exact:
  "re_match (Rep cl n (Some n) # as) prev s (ing, cap) =
     (if n \<le> length (takeWhile (in_cls cl) s)
      then re_match as (prev_after prev (take n s)) (drop n s)
             (ing, if ing then cap @ take n s else cap)
      else None)"
  by (simp add: run_length_def first_some_single min_def)

lemma re_match_Rep_greedy:
  assumes "lo \<le> run_length cl hi s"
      and "re_match as (prev_after prev (take (run_length cl hi s) s)) (drop (run_length cl hi s) s)
             (ing, if ing then cap @ take (run_length cl hi s) s else cap) = Some g"
  shows "re_match (Rep cl lo hi # as) prev s (ing, cap) = Some g"
proof -
  have "rev [lo ..< Suc (run_length cl hi s)] = run_length cl hi s # rev [lo ..< run_length cl hi s]"
    using assms(1) by simp
  then show ?thesis using assms(2) by simp
qed

lemma two_nine_match:
  "re_match pat_two_nine prev s (False, []) =
     (if at_boundary prev s \<and> 2 \<le> length (takeWhile is_letter s) \<and>
         9 \<le> length (takeWhile is_digit (drop 2 s)) \<and>
         at_boundary (prev_after (prev_after prev (take 2 s)) (take 9 (drop 2 s)))
           (drop 9 (drop 2 s))
      then Some (take 2 s @ take 9 (drop 2 s)) else None)"
  by (simp add: pat_two_nine_def re_match_Rep_exact comp_def del: re_match.simps(5)
        cong: takeWhile_cong)

lemma two_nine_implies_letters_digits:
  assumes "re_match pat_two_nine prev s (False, []) = Some g"
  shows "re_match pat_letters_digits prev s (False, []) = Some g"
proof -
  from assms have b0: "at_boundary prev s"
    and l2: "2 \<le> length (takeWhile is_letter s)"
    and d9: "9 \<le> length (takeWhile is_digit (drop 2 s))"
    and b1: "at_boundary (prev_after (prev_after prev (take 2 s)) (take 9 (drop 2 s)))
               (drop 9 (drop 2 s))"
    and g: "g = take 2 s @ take 9 (drop 2 s)"
    by (simp_all add: two_nine_match split: if_splits)
  from run_prefix[OF l2] obtain pre rest where
    s: "s = pre @ rest" and lpre: "length pre = 2" and ppre: "\<forall>c \<in> set pre. is_letter c"
    by (auto simp: comp_def)
  have "drop 2 s = rest" using s lpre by simp
  with run_prefix[OF d9] obtain dpre rest2 where
    r: "rest = dpre @ rest2" and ldpre: "length dpre = 9" and pdpre: "\<forall>c \<in> set dpre. is_digit c"
    by auto
  have dne: "dpre \<noteq> []" using ldpre by auto
  have t2: "take 2 s = pre" "drop 2 s = dpre @ rest2" using s lpre r by simp_all
  have t9: "take 9 (dpre @ rest2) = dpre" "drop 9 (dpre @ rest2) = rest2" using ldpre by simp_all
  have lastd: "is_digit (last dpre)" using dne pdpre by simp
  have b1': "at_boundary (Some (last dpre)) rest2"
    using b1 t2 t9 dne by (simp add: prev_after_def)
  have rest2_nd: "takeWhile is_digit rest2 = []"
  proof (cases rest2)
    case Nil then show ?thesis by simp
  next
    case (Cons c cs)
    with b1' lastd have "\<not> is_word c" by (simp add: at_boundary_def digit_is_word)
    then have "\<not> is_digit c" using digit_is_word by blast
    then show ?thesis using Cons by simp
  qed
  have tw_letters: "takeWhile is_letter s = pre"
  proof -
    obtain d ds where "dpre = d # ds" using dne by (cases dpre) auto
    moreover then have "\<not> is_letter d" using pdpre digit_not_letter by simp
    ultimately have "takeWhile is_letter rest = []" using r by simp
    then show ?thesis using s ppre by (simp add: takeWhile_append2)
  qed
  have tw_digits: "takeWhile is_digit (dpre @ rest2) = dpre"
    using pdpre rest2_nd by (simp add: takeWhile_append2)
  have rl1: "run_length AZ (Some 4) s = 2"
    using tw_letters lpre by (simp add: run_length_def comp_def cong: takeWhile_cong)
  have rl2: "run_length Dig None (dpre @ rest2) = 9"
    using tw_digits ldpre by (simp add: run_length_def comp_def cong: takeWhile_cong)
  have inner: "re_match [GClose, Bound] (prev_after (prev_after prev pre) dpre) rest2
                 (True, pre @ dpre) = Some g"
    using b1' dne g t2 t9 by (simp add: prev_after_def)
  have mid: "re_match [Rep Dig 6 None, GClose, Bound] (prev_after prev pre) (dpre @ rest2)
               (True, pre) = Some g"
    by (rule re_match_Rep_greedy) (use rl2 inner t9 in simp_all)
  have "re_match [Rep AZ 2 (Some 4), Rep Dig 6 None, GClose, Bound] prev s (True, []) = Some g"
    by (rule re_match_Rep_greedy) (use rl1 mid t2 in simp_all)
  then show ?thesis using b0 by (simp add: pat_letters_digits_def)
qed

lemma search_two_nine_implies_letters_digits:
  "re_search_from pat_two_nine prev s \<noteq> None \<Longrightarrow> re_search_from pat_letters_digits prev s \<noteq> None"
proof (induction s arbitrary: prev)
  case Nil
  then show ?case using two_nine_implies_letters_digits[of prev "[]"] by auto
next
  case (Cons c cs)
  show ?case
  proof (cases "re_match pat_two_nine prev (c # cs) (False, [])")
    case (Some g)
    then show ?thesis using two_nine_implies_letters_digits[OF Some] by simp
  next
    case None
    with Cons.prems have "re_search_from pat_two_nine (Some c) cs \<noteq> None" by simp
    from Cons.IH[OF this] show ?thesis by (auto split: option.splits)
  qed
qed

text \<open>
  Claim C10. The extractor of the service and the extractor of the flow return the same
  result on every text: wherever the fourth pattern of the service (two letters and
  nine digits between word boundaries) matches, the first pattern matches too, so the
  fourth pattern is never the one that decides.
\<close>

theorem extractors_agree:
  "extract_invoice_identifier text = extract_invoice_identifier_from_text text"
proof (cases "re_search pat_letters_digits text")
  case (Some g)
  then show ?thesis
    by (simp add: extract_invoice_identifier_def extract_invoice_identifier_from_text_def
          service_invoice_patterns_def flow_invoice_patterns_def)
next
  case None
  have "re_search pat_two_nine text = None"
  proof (rule ccontr)
    assume "re_search pat_two_nine text \<noteq> None"
    then have "re_search_from pat_two_nine None text \<noteq> None" by (simp add: re_search_def)
    from search_two_nine_implies_letters_digits[OF this] show False
      using None by (simp add: re_search_def)
  qed
  with None show ?thesis
    by (simp add: extract_invoice_identifier_def extract_invoice_identifier_from_text_def
          service_invoice_patterns_def flow_invoice_patterns_def split: option.splits)
qed


section \<open>Identifiers, session keys and the DECIDE node\<close>

lemma first_some_SomeD: "first_some xs = Some g \<Longrightarrow> Some g \<in> set xs"
  by (induction xs rule: first_some.induct) auto

lemma code_less: "code c < 256"
  by (simp add: code_def)

lemma code_eq_iff: "(code a = code b) = (a = b)"
  by (simp add: code_def)

lemma code_underscore: "code (CHR ''_'') = 95"
  by (simp add: code_def)

lemma code_hyphen: "code (CHR ''-'') = 45"
  by (simp add: code_def)

lemma code_char_of: "code (char_of (n::nat)) = n mod 256"
  by (simp add: code_def)

lemma run_length_le: "run_length cl hi s \<le> length (takeWhile (in_cls cl) s)"
  by (simp add: run_length_def Let_def split: option.splits)

lemma re_match_Rep_SomeD:
  assumes "re_match (Rep cl lo hi # as) prev s (ing, cap) = Some g"
  shows "\<exists>n. lo \<le> n \<and> n \<le> run_length cl hi s \<and>
           re_match as (prev_after prev (take n s)) (drop n s)
             (ing, if ing then cap @ take n s else cap) = Some g"
proof -
  let ?f = "\<lambda>n. re_match as (prev_after prev (take n s)) (drop n s)
                    (ing, if ing then cap @ take n s else cap)"
  from assms have "first_some (map ?f (rev [lo ..< Suc (run_length cl hi s)])) = Some g"
    by simp
  then have "Some g \<in> set (map ?f (rev [lo ..< Suc (run_length cl hi s)]))"
    by (rule first_some_SomeD)
  then obtain n where "n \<in> set (rev [lo ..< Suc (run_length cl hi s)])" and "?f n = Some g"
    by (metis (no_types, lifting) imageE list.set_map)
  then show ?thesis by auto
qed

lemma take_run_in_cls:
  assumes "n \<le> run_length cl hi s" and "c \<in> set (take n s)"
  shows "in_cls cl c"
proof -
  from assms(1) have n: "n \<le> length (takeWhile (in_cls cl) s)"
    using run_length_le[of cl hi s] by simp
  have "take n s = take n (takeWhile (in_cls cl) s @ dropWhile (in_cls cl) s)" by simp
  also have "\<dots> = take n (takeWhile (in_cls cl) s)" using n by (simp del: takeWhile_dropWhile_id)
  finally have "c \<in> set (takeWhile (in_cls cl) s)" using assms(2) by (metis in_set_takeD)
  then show ?thesis by (rule set_takeWhileD[THEN conjunct2])
qed

lemma re_match_chars:
  assumes "\<And>cl lo hi c. Rep cl lo hi \<in> set pat \<Longrightarrow> in_cls cl c \<Longrightarrow> P c"
      and "\<forall>c \<in> set cap. P c"
      and "re_match pat prev s (ing, cap) = Some g"
  shows "\<forall>c \<in> set g. P c"
  using assms
proof (induction pat arbitrary: prev s ing cap)
  case Nil
  then show ?case by simp
next
  case (Cons a as)
  show ?case
  proof (cases a)
    case Bound
    then show ?thesis using Cons.prems Cons.IH[of cap prev s ing] by (simp split: if_splits)
  next
    case GOpen
    then show ?thesis using Cons.prems Cons.IH[of cap prev s True] by simp
  next
    case GClose
    then show ?thesis using Cons.prems Cons.IH[of cap prev s False] by simp
  next
    case (Rep cl lo hi)
    with re_match_Rep_SomeD[of cl lo hi as prev s ing cap g] Cons.prems(3)
    obtain n where nle: "n \<le> run_length cl hi s"
      and m: "re_match as (prev_after prev (take n s)) (drop n s)
                (ing, if ing then cap @ take n s else cap) = Some g"
      by blast
    have "\<forall>c \<in> set (take n s). P c"
      using take_run_in_cls[OF nle] Cons.prems(1)[of cl lo hi] Rep by auto
    then have "\<forall>c \<in> set (if ing then cap @ take n s else cap). P c"
      using Cons.prems(2) by auto
    from Cons.IH[OF _ this m] show ?thesis using Cons.prems(1) by auto
  qed
qed

lemma re_match_min_len:
  "re_match pat prev s (ing, cap) = Some g \<Longrightarrow> length cap + min_group_len pat ing \<le> length g"
proof (induction pat arbitrary: prev s ing cap)
  case Nil
  then show ?case by simp
next
  case (Cons a as)
  show ?case
  proof (cases a)
    case Bound
    then show ?thesis using Cons.prems Cons.IH[of prev s ing cap] by (simp split: if_splits)
  next
    case GOpen
    then show ?thesis using Cons.prems Cons.IH[of prev s True cap] by simp
  next
    case GClose
    then show ?thesis using Cons.prems Cons.IH[of prev s False cap] by simp
  next
    case (Rep cl lo hi)
    with re_match_Rep_SomeD[of cl lo hi as prev s ing cap g] Cons.prems
    obtain n where nle: "lo \<le> n" "n \<le> run_length cl hi s"
      and m: "re_match as (prev_after prev (take n s)) (drop n s)
                (ing, if ing then cap @ take n s else cap) = Some g"
      by blast
    have "n \<le> length s"
      using nle(2) run_length_le[of cl hi s] length_takeWhile_le[of "in_cls cl" s] by simp
    then have "length (take n s) = n" by simp
    with Cons.IH[OF m] nle(1) show ?thesis using Rep by (simp split: if_splits)
  qed
qed

lemma re_search_from_match:
  "re_search_from pat prev s = Some g \<Longrightarrow> \<exists>prev' s'. re_match pat prev' s' (False, []) = Some g"
  by (induction s arbitrary: prev) (auto split: option.splits)

lemma id_char_pat_letters_digits:
  "Rep cl lo hi \<in> set pat_letters_digits \<Longrightarrow> in_cls cl c \<Longrightarrow> id_char c"
  by (auto simp: pat_letters_digits_def id_char_def)

lemma id_char_pat_hyphen:
  "Rep cl lo hi \<in> set pat_hyphen \<Longrightarrow> in_cls cl c \<Longrightarrow> id_char c"
  by (auto simp: pat_hyphen_def id_char_def code_hyphen is_letter_def)

lemma id_char_pat_factura:
  "Rep cl lo hi \<in> set pat_factura \<Longrightarrow> in_cls cl c \<Longrightarrow> id_char c"
  by (auto simp: pat_factura_def literal_def id_char_def is_letter_def is_lower_def code_def)

lemma id_char_pat_two_nine:
  "Rep cl lo hi \<in> set pat_two_nine \<Longrightarrow> in_cls cl c \<Longrightarrow> id_char c"
  by (auto simp: pat_two_nine_def id_char_def)

lemma id_char_pat_cufe:
  "Rep cl lo hi \<in> set pat_cufe \<Longrightarrow> in_cls cl c \<Longrightarrow> id_char c"
  by (auto simp: pat_cufe_def id_char_def)

lemma min_group_len_patterns:
  "0 < min_group_len pat_letters_digits False" "0 < min_group_len pat_hyphen False"
  "0 < min_group_len pat_factura False" "0 < min_group_len pat_two_nine False"
  "0 < min_group_len pat_cufe False"
  by (simp_all add: pat_letters_digits_def pat_hyphen_def pat_factura_def pat_two_nine_def
        pat_cufe_def literal_def)

lemma re_search_known:
  assumes "known_pattern pat" and "re_search pat s = Some g"
  shows "g \<noteq> [] \<and> (\<forall>c \<in> set g. id_char c)"
proof -
  from assms(2) obtain prev' s' where m: "re_match pat prev' s' (False, []) = Some g"
    using re_search_from_match[of pat None s g] by (auto simp: re_search_def)
  have ch: "\<And>cl lo hi c. Rep cl lo hi \<in> set pat \<Longrightarrow> in_cls cl c \<Longrightarrow> id_char c"
    using assms(1) id_char_pat_letters_digits id_char_pat_hyphen id_char_pat_factura
      id_char_pat_two_nine id_char_pat_cufe
    by (auto simp: known_pattern_def)
  have "0 < min_group_len pat False"
    using assms(1) min_group_len_patterns by (auto simp: known_pattern_def)
  with re_match_min_len[OF m] have "g \<noteq> []" by auto
  moreover have "\<forall>c \<in> set g. id_char c"
    by (rule re_match_chars[where P = id_char, OF ch _ m]) simp_all
  ultimately show ?thesis by simp
qed

lemma first_match_known:
  "\<forall>p \<in> set ps. known_pattern p \<Longrightarrow> first_match ps s = Some g \<Longrightarrow>
     g \<noteq> [] \<and> (\<forall>c \<in> set g. id_char c)"
  by (induction ps) (auto split: option.splits dest: re_search_known)


lemma first_match_unfold3:
  "first_match [p1, p2, p3] s =
     (case re_search p1 s of
        Some g \<Rightarrow> Some g
      | None \<Rightarrow> (case re_search p2 s of
                   Some g \<Rightarrow> Some g
                 | None \<Rightarrow> re_search p3 s))"
  by (simp split: option.splits)

lemma example_letters_digits: "re_search pat_letters_digits example_question = Some ''HBE122090''"
  by code_simp

lemma example_cufe:
  "re_search pat_cufe example_question = Some ''ABCDEFGHIJKLMNOPQRSTUVWXYZ123456''"
  by code_simp

text \<open>
  Claim C6. On every text the flow's extractor returns the group of the first of
  letters+digits, letters-hyphen-digits and "factura <token>" that matches anywhere
  in the text, in that order, and looks for a 32-character CUFE only when none of the
  three matches. On "factura HBE122090 con CUFE ABCDEFGHIJKLMNOPQRSTUVWXYZ123456" the
  CUFE pattern would match, and the extractor returns "HBE122090".
\<close>

theorem extractor_priority:
  "extract_invoice_identifier_from_text s =
     (case re_search pat_letters_digits s of
        Some g \<Rightarrow> Some g
      | None \<Rightarrow>
         (case re_search pat_hyphen s of
            Some g \<Rightarrow> Some g
          | None \<Rightarrow>
             (case re_search pat_factura s of
                Some g \<Rightarrow> Some g
              | None \<Rightarrow> re_search pat_cufe s)))
   \<and> re_search pat_cufe example_question = Some ''ABCDEFGHIJKLMNOPQRSTUVWXYZ123456''
   \<and> extract_invoice_identifier_from_text example_question = Some ''HBE122090''"
  by (simp add: extract_invoice_identifier_from_text_def flow_invoice_patterns_def
        first_match_unfold3 example_letters_digits example_cufe split: option.splits)

lemma id_char_not_underscore: "id_char c \<Longrightarrow> c \<noteq> CHR ''_''"
  by (auto simp: id_char_def is_letter_def is_upper_def is_lower_def is_digit_def is_space_def
        code_underscore)

lemma lower_char_underscore: "lower_char c = CHR ''_'' \<Longrightarrow> c = CHR ''_''"
proof -
  assume a: "lower_char c = CHR ''_''"
  have cl: "code (lower_char c) =
              (if is_upper c \<or> (192 \<le> code c \<and> code c \<le> 222 \<and> code c \<noteq> 215)
               then (code c + 32) mod 256 else code c)"
    by (simp add: lower_char_def code_char_of)
  from a have l: "code (lower_char c) = 95" by (simp add: code_underscore)
  have "code c = 95"
  proof (cases "is_upper c \<or> (192 \<le> code c \<and> code c \<le> 222 \<and> code c \<noteq> 215)")
    case True
    then have "code c + 32 < 256" "code c + 32 \<noteq> 95" by (auto simp: is_upper_def)
    then have "(code c + 32) mod 256 \<noteq> 95" by simp
    with cl l True show ?thesis by simp
  next
    case False
    with cl l show ?thesis by simp
  qed
  then show ?thesis using code_eq_iff[of c "CHR ''_''"] by (simp add: code_underscore)
qed

lemma replace_inj:
  "CHR ''_'' \<notin> set x \<Longrightarrow> CHR ''_'' \<notin> set y \<Longrightarrow>
     replace_char (CHR ''-'') (CHR ''_'') x = replace_char (CHR ''-'') (CHR ''_'') y \<Longrightarrow> x = y"
proof (induction x arbitrary: y)
  case Nil
  then show ?case by (simp add: replace_char_def)
next
  case (Cons a x)
  then obtain b y' where y: "y = b # y'" by (cases y) (auto simp: replace_char_def)
  with Cons.prems have ab: "a = b" by (auto simp: replace_char_def split: if_splits)
  from Cons.prems y have "x = y'" by (intro Cons.IH) (auto simp: replace_char_def)
  with ab y show ?case by simp
qed

lemma lower_no_underscore: "CHR ''_'' \<notin> set x \<Longrightarrow> CHR ''_'' \<notin> set (lower x)"
proof
  assume n: "CHR ''_'' \<notin> set x" and "CHR ''_'' \<in> set (lower x)"
  then obtain c where c: "c \<in> set x" and "lower_char c = CHR ''_''"
    by (auto simp: lower_def)
  then have "c = CHR ''_''" using lower_char_underscore by blast
  with c n show False by simp
qed

lemma extract_service_id:
  assumes "extract_invoice_identifier s = Some g"
  shows "g \<noteq> [] \<and> (\<forall>c \<in> set g. id_char c)"
proof (cases "first_match service_invoice_patterns s")
  case None
  with assms have "re_search pat_cufe s = Some g"
    by (simp add: extract_invoice_identifier_def)
  then show ?thesis by (rule re_search_known[rotated]) (simp add: known_pattern_def)
next
  case (Some g')
  with assms have "first_match service_invoice_patterns s = Some g"
    by (simp add: extract_invoice_identifier_def)
  then show ?thesis
    by (rule first_match_known[rotated]) (simp add: service_invoice_patterns_def known_pattern_def)
qed

lemma thread_id_of_identifier:
  assumes "extract_invoice_identifier q = Some a"
  shows "generate_thread_id h q = ''invoice_'' @ replace_char (CHR ''-'') (CHR ''_'') (lower a)"
  using assms extract_service_id[OF assms] by (simp add: generate_thread_id_def)

text \<open>
  Claim C2. The thread id is a function of the question text (and of the hash function).
  For two questions in which the extractor finds identifiers \<open>a\<close> and \<open>b\<close>, both thread
  ids are "invoice_" followed by the identifier in lower case with hyphens replaced by
  underscores; they are equal exactly when the normalised identifiers are equal, which
  is exactly when \<open>a\<close> and \<open>b\<close> are equal up to case.
\<close>

theorem session_key_same_iff:
  assumes "extract_invoice_identifier q1 = Some a" and "extract_invoice_identifier q2 = Some b"
  shows "generate_thread_id h q1 = ''invoice_'' @ replace_char (CHR ''-'') (CHR ''_'') (lower a) \<and>
         generate_thread_id h q2 = ''invoice_'' @ replace_char (CHR ''-'') (CHR ''_'') (lower b) \<and>
         (generate_thread_id h q1 = generate_thread_id h q2) =
           (replace_char (CHR ''-'') (CHR ''_'') (lower a)
              = replace_char (CHR ''-'') (CHR ''_'') (lower b)) \<and>
         (generate_thread_id h q1 = generate_thread_id h q2) = (lower a = lower b)"
proof -
  note t1 = thread_id_of_identifier[OF assms(1), of h]
  note t2 = thread_id_of_identifier[OF assms(2), of h]
  have ua: "CHR ''_'' \<notin> set (lower a)"
    using extract_service_id[OF assms(1)] id_char_not_underscore
    by (intro lower_no_underscore) auto
  have ub: "CHR ''_'' \<notin> set (lower b)"
    using extract_service_id[OF assms(2)] id_char_not_underscore
    by (intro lower_no_underscore) auto
  have "(replace_char (CHR ''-'') (CHR ''_'') (lower a)
              = replace_char (CHR ''-'') (CHR ''_'') (lower b)) = (lower a = lower b)"
    using replace_inj[OF ua ub] by auto
  then show ?thesis using t1 t2 by simp
qed

lemma extract_dame: "extract_invoice_identifier question_dame = Some ''HBE122090''"
  by code_simp

lemma extract_cuando: "extract_invoice_identifier question_cuando = Some ''HBE122090''"
  by code_simp

lemma extract_otra: "extract_invoice_identifier question_otra = Some ''XYZ999999''"
  by code_simp

lemma lower_examples: "lower ''HBE122090'' = ''hbe122090''" "lower ''XYZ999999'' = ''xyz999999''"
  by code_simp+



theorem session_key_same_iff_witness:
  "extract_invoice_identifier question_dame = Some ''HBE122090'' \<and>
   extract_invoice_identifier question_cuando = Some ''HBE122090'' \<and>
   extract_invoice_identifier question_otra = Some ''XYZ999999'' \<and>
   generate_thread_id example_md5 question_dame = ''invoice_hbe122090'' \<and>
   generate_thread_id example_md5 question_dame = generate_thread_id example_md5 question_cuando \<and>
   generate_thread_id example_md5 question_dame \<noteq> generate_thread_id example_md5 question_otra"
proof -
  note h1 = extract_dame and h2 = extract_cuando and h3 = extract_otra
  have r: "replace_char (CHR ''-'') (CHR ''_'') ''hbe122090'' = ''hbe122090''"
    by (simp add: replace_char_def)
  have l: "lower ''HBE122090'' \<noteq> lower ''XYZ999999''"
    by (simp add: lower_examples)
  from session_key_same_iff[OF h1 h2, of example_md5]
  have a: "generate_thread_id example_md5 question_dame = ''invoice_hbe122090''"
    and b: "generate_thread_id example_md5 question_dame = generate_thread_id example_md5 question_cuando"
    by (simp_all add: lower_examples r)
  from session_key_same_iff[OF h1 h3, of example_md5] l
  have c: "generate_thread_id example_md5 question_dame \<noteq> generate_thread_id example_md5 question_otra"
    by blast
  show ?thesis using h1 h2 h3 a b c by blast
qed














end
